theory Spec2Isabelle
  imports Main
begin

section \<open>Organiser and team administration views (pretalx/orga/views/organiser.py)\<close>

text \<open>
  The views are thin controllers over the ORM, the forms, the permission predicate and
  the message framework. The embedding keeps the control flow of every handler of
  \<^verbatim>\<open>organiser.py\<close> and makes its effects explicit:
  \<^item> the database is a record of tables (lists of rows);
  \<^item> the per-request state is the database, the flash messages added so far, and a log
    of the calls made to the persistence layer and to the collaborators (the log is an
    observation of the run, the code has no such field);
  \<^item> every \<^verbatim>\<open>raise\<close> is a value \<open>Inl e\<close> of the result; all exceptions modelled here
    are subclasses of Python's \<^verbatim>\<open>Exception\<close>, so \<^verbatim>\<open>except Exception\<close> catches each of them;
  \<^item> collaborators whose code the views only call (the invariant checker, the permission
    predicate, the mail sender, the forms' \<^verbatim>\<open>save\<close>) are parameters.
\<close>

subsection \<open>Exceptions, messages, responses\<close>

datatype exn_class =
    Http404 | PermissionDenied | DoesNotExist | MultipleObjectsReturned
  | AttributeError | KeyError | TypeError | RecursionError | IntegrityError
  | SendMailException | OtherException

datatype exn = Exn exn_class string

text \<open>\<^verbatim>\<open>str(e)\<close>\<close>

fun str :: "exn \<Rightarrow> string" where
  "str (Exn c m) = m"

datatype level = Success | Warning | Error

datatype response = Redirect string | TemplateResponse

subsection \<open>Models\<close>

type_synonym pk = nat

record organiser =
  organiser_pk :: pk
  orga_urls_base :: string

record team =
  team_pk :: pk
  team_organiser :: pk
  team_name :: string
  members :: "pk list"

record team_invite =
  invite_pk :: pk
  invite_team :: pk
  email :: string

record social_app =
  provider :: string
  client_id :: string

record database =
  teams :: "team list"
  invites :: "team_invite list"
  social_apps :: "social_app list"

subsection \<open>Request, state, collaborators\<close>

text \<open>
  \<open>kwargs_pk\<close>, \<open>kwargs_user_pk\<close> and \<open>kwargs_organiser\<close> are the entries of
  \<^verbatim>\<open>self.kwargs\<close> (None when the key is absent); \<open>POST_form\<close> is
  \<^verbatim>\<open>request.POST.get("form")\<close> and \<open>GET_next\<close> is \<^verbatim>\<open>request.GET.get("next")\<close>.
\<close>

record request =
  organiser :: organiser
  user :: pk
  request_method :: string
  path :: string
  POST_form :: "string option"
  GET_next :: "string option"
  kwargs_pk :: "pk option"
  kwargs_user_pk :: "pk option"
  kwargs_organiser :: "string option"

datatype event =
    AtomicEnter | AtomicCommit | AtomicRollback
  | FormSave
  | CheckAccessPermissions pk
  | MembersRemove pk "pk option"
  | TeamDeleted pk
  | InviteDeleted pk
  | InviteSent pk
  | SocialAppDeleted string

record state =
  db :: database
  messages :: "(level \<times> string) list"
  calls :: "event list"

datatype perm_object = PermNone | PermOrganiser organiser | PermTeam team

text \<open>
  The collaborators: \<^verbatim>\<open>check_access_permissions(organiser)\<close> reads the database and
  returns warnings or raises; \<open>has_perm actor name target\<close> is the permission predicate;
  \<open>invite_send\<close> is \<^verbatim>\<open>TeamInvite.send\<close> (\<open>Some e\<close> when the mail sender raises);
  \<open>address_key\<close> maps an address to what identifies it (two addresses are the same
  address when their keys are equal).
\<close>

record env =
  check_access_permissions :: "database \<Rightarrow> organiser \<Rightarrow> exn + string list"
  has_perm :: "pk \<Rightarrow> string \<Rightarrow> perm_object \<Rightarrow> bool"
  invite_send :: "team_invite \<Rightarrow> exn option"
  address_key :: "string \<Rightarrow> string"

text \<open>
  A bound model form as the view sees it: the pk of its instance, the outcome of
  \<^verbatim>\<open>is_valid()\<close> and \<^verbatim>\<open>has_changed()\<close>, and \<^verbatim>\<open>save()\<close>, which may write to the
  database and then raise.
\<close>

record model_form =
  instance_pk :: "pk option"
  form_is_valid :: bool
  has_changed :: bool
  form_save :: "database \<Rightarrow> (exn + unit) \<times> database"

text \<open>
  The bound invite form after validation: \<open>errors\<close> is \<^verbatim>\<open>form.errors\<close> (one entry per
  invalid field), \<open>cleaned_addresses\<close> the addresses of its cleaned data.
\<close>

record invite_form =
  errors :: "(string \<times> string list) list"
  cleaned_addresses :: "string list"

record sso_client_form =
  sso_is_valid :: bool
  sso_save :: "database \<Rightarrow> (exn + unit) \<times> database"

subsection \<open>Messages, the call log, transactions, queries\<close>

text \<open>\<^verbatim>\<open>messages.success\<close>, \<^verbatim>\<open>messages.warning\<close>, \<^verbatim>\<open>messages.error\<close>\<close>

definition messages_add :: "level \<Rightarrow> string \<Rightarrow> state \<Rightarrow> state" where
  "messages_add l m s = s\<lparr>messages := messages s @ [(l, m)]\<rparr>"

text \<open>\<^verbatim>\<open>for warning in warnings: messages.warning(request, warning)\<close>\<close>

fun messages_warnings :: "string list \<Rightarrow> state \<Rightarrow> state" where
  "messages_warnings [] s = s"
| "messages_warnings (w # ws) s = messages_warnings ws (messages_add Warning w s)"

definition log_call :: "event \<Rightarrow> state \<Rightarrow> state" where
  "log_call ev s = s\<lparr>calls := calls s @ [ev]\<rparr>"

text \<open>
  \<^verbatim>\<open>with transaction.atomic(): body\<close>. The block commits when the body returns and
  restores the database of its entry when the body raises; the exception then goes on
  to the caller. Messages and the call log are not part of the database.
\<close>

definition atomic :: "(state \<Rightarrow> (exn + 'a) \<times> state) \<Rightarrow> state \<Rightarrow> (exn + 'a) \<times> state" where
  "atomic body s =
     (case body (log_call AtomicEnter s) of
        (Inr v, s') \<Rightarrow> (Inr v, log_call AtomicCommit s')
      | (Inl e, s') \<Rightarrow> (Inl e, log_call AtomicRollback (s'\<lparr>db := db s\<rparr>)))"

text \<open>
  \<^verbatim>\<open>get_object_or_404(queryset, pk=k)\<close>: \<^verbatim>\<open>queryset.get(pk=k)\<close>, with DoesNotExist turned
  into Http404. More than one row raises MultipleObjectsReturned, which is not caught.
\<close>

definition get_object_or_404 :: "'a list \<Rightarrow> ('a \<Rightarrow> pk) \<Rightarrow> pk \<Rightarrow> exn + 'a" where
  "get_object_or_404 queryset pk_of k =
     (case filter (\<lambda>x. pk_of x = k) queryset of
        [] \<Rightarrow> Inl (Exn Http404 ''No object matches the given query.'')
      | [x] \<Rightarrow> Inr x
      | _ \<Rightarrow> Inl (Exn MultipleObjectsReturned ''get() returned more than one object''))"

text \<open>\<^verbatim>\<open>organiser.teams.all()\<close> and \<^verbatim>\<open>team.invites.all()\<close>\<close>

definition organiser_teams :: "database \<Rightarrow> organiser \<Rightarrow> team list" where
  "organiser_teams d org = filter (\<lambda>t. team_organiser t = organiser_pk org) (teams d)"

definition team_invites :: "database \<Rightarrow> team \<Rightarrow> team_invite list" where
  "team_invites d t = filter (\<lambda>i. invite_team i = team_pk t) (invites d)"

text \<open>The attribute access \<^verbatim>\<open>None.attr\<close>.\<close>

definition none_attribute :: exn where
  "none_attribute = Exn AttributeError ''NoneType object has no attribute''"

text \<open>The invariant check of the organiser, logged.\<close>

definition run_check :: "env \<Rightarrow> request \<Rightarrow> state \<Rightarrow> (exn + string list) \<times> state" where
  "run_check env req s =
     (check_access_permissions env (db s) (organiser req),
      log_call (CheckAccessPermissions (organiser_pk (organiser req))) s)"

text \<open>\<^verbatim>\<open>form.save()\<close>, logged; the database is the one the save leaves, also when it raises.\<close>

definition run_save :: "model_form \<Rightarrow> state \<Rightarrow> (exn + unit) \<times> state" where
  "run_save form s =
     (case form_save form (db s) of
        (r, d') \<Rightarrow> (r, log_call FormSave (s\<lparr>db := d'\<rparr>)))"

subsection \<open>TeamMixin\<close>

text \<open>
  \<^verbatim>\<open>_get_team\<close>: the team of the current organiser with the pk of the URL; None when
  the URL has no pk.
\<close>

definition TeamMixin_get_team :: "request \<Rightarrow> database \<Rightarrow> exn + team option" where
  "TeamMixin_get_team req d =
     (case kwargs_pk req of
        None \<Rightarrow> Inr None
      | Some k \<Rightarrow> map_sum id Some (get_object_or_404 (organiser_teams d (organiser req)) team_pk k))"

definition TeamMixin_get_object :: "request \<Rightarrow> database \<Rightarrow> exn + team option" where
  "TeamMixin_get_object req d = TeamMixin_get_team req d"

subsection \<open>TeamDetail\<close>

definition TeamDetail_get_object :: "request \<Rightarrow> database \<Rightarrow> exn + team option" where
  "TeamDetail_get_object req d =
     (if kwargs_pk req = None then Inr None else TeamMixin_get_object req d)"

definition TeamDetail_get_permission_object :: "request \<Rightarrow> database \<Rightarrow> exn + perm_object" where
  "TeamDetail_get_permission_object req d =
     (if kwargs_pk req = None then Inr (PermOrganiser (organiser req))
      else map_sum id (\<lambda>t. case t of None \<Rightarrow> PermNone | Some t' \<Rightarrow> PermTeam t')
             (TeamDetail_get_object req d))"

text \<open>
  \<^verbatim>\<open>invite_form\<close>: bound when the request is a POST whose discriminator is "invite".
  A Django form is valid when it is bound and has no errors.
\<close>

definition invite_form_is_bound :: "request \<Rightarrow> bool" where
  "invite_form_is_bound req =
     (request_method req = ''POST'' \<and> POST_form req = Some ''invite'')"

definition invite_form_is_valid :: "request \<Rightarrow> invite_form \<Rightarrow> bool" where
  "invite_form_is_valid req iform = (invite_form_is_bound req \<and> errors iform = [])"

definition TeamDetail_get_success_url :: "request \<Rightarrow> string" where
  "TeamDetail_get_success_url req =
     (if kwargs_pk req = None then orga_urls_base (organiser req)
      else (case GET_next req of None \<Rightarrow> path req | Some n \<Rightarrow> n))"

text \<open>
  Modelled from the spec: \<^verbatim>\<open>self.get(request, ...)\<close> is the get of CreateOrUpdateView
  (pretalx/common/views), missing from the sources. The spec: the controller "resolves a
  target object from URL parameters", and after a failed save "the error message is
  surfaced to the user without persisting anything". So: the object is resolved and the
  page is rendered; nothing is written.
\<close>

definition TeamDetail_get :: "request \<Rightarrow> state \<Rightarrow> (exn + response) \<times> state" where
  "TeamDetail_get req s =
     (case TeamDetail_get_object req (db s) of
        Inl e \<Rightarrow> (Inl e, s)
      | Inr obj \<Rightarrow> (Inr TemplateResponse, s))"

text \<open>
  \<^verbatim>\<open>super().form_valid(form)\<close>: the base of TeamDetail is a Django model-form view, and
  Django's ModelFormMixin.form_valid calls \<^verbatim>\<open>form.save()\<close> and redirects to
  \<^verbatim>\<open>get_success_url()\<close>. This save runs after the atomic block, outside of it.
\<close>

definition ModelFormMixin_form_valid :: "string \<Rightarrow> model_form \<Rightarrow> state \<Rightarrow> (exn + response) \<times> state" where
  "ModelFormMixin_form_valid success_url form s =
     (case run_save form s of
        (Inl e, s') \<Rightarrow> (Inl e, s')
      | (Inr u, s') \<Rightarrow> (Inr (Redirect success_url), s'))"

text \<open>\<^verbatim>\<open>created = not bool(form.instance.pk)\<close>: a pk of None or 0 is falsy.\<close>

definition created :: "model_form \<Rightarrow> bool" where
  "created form = (case instance_pk form of None \<Rightarrow> True | Some k \<Rightarrow> k = 0)"

text \<open>The body of the atomic block of \<^verbatim>\<open>form_valid\<close>; its value is \<^verbatim>\<open>warnings\<close>.\<close>

definition form_valid_body :: "env \<Rightarrow> request \<Rightarrow> model_form \<Rightarrow> state \<Rightarrow> (exn + string list) \<times> state" where
  "form_valid_body env req form s =
     (case run_save form s of
        (Inl e, s1) \<Rightarrow> (Inl e, s1)
      | (Inr u, s1) \<Rightarrow>
          (if \<not> created form then run_check env req s1 else (Inr [], s1)))"

definition TeamDetail_form_valid :: "env \<Rightarrow> request \<Rightarrow> model_form \<Rightarrow> state \<Rightarrow> (exn + response) \<times> state" where
  "TeamDetail_form_valid env req form s =
     (case atomic (form_valid_body env req form) s of
        (Inl e, s1) \<Rightarrow> TeamDetail_get req (messages_add Error (str e) s1)
      | (Inr warnings, s1) \<Rightarrow>
          (let s2 = messages_warnings warnings s1;
               s3 = (if created form
                     then messages_add Success ''The team has been created.'' s2
                     else if has_changed form
                     then messages_add Success ''The settings have been saved.'' s2
                     else s2)
           in ModelFormMixin_form_valid (TeamDetail_get_success_url req) form s3))"

text \<open>
  Modelled from the spec: \<^verbatim>\<open>super().post(...)\<close> of TeamDetail is the post of
  CreateOrUpdateView (pretalx/common/views), missing from the sources. The spec: the
  controller "resolves a target object from URL parameters", then "validates submitted
  form; on success, persists within a single atomic transaction". So: the object is
  resolved, a valid form goes to \<^verbatim>\<open>form_valid\<close>, an invalid one is rendered again.
\<close>

definition TeamDetail_super_post :: "env \<Rightarrow> request \<Rightarrow> model_form \<Rightarrow> state \<Rightarrow> (exn + response) \<times> state" where
  "TeamDetail_super_post env req form s =
     (case TeamDetail_get_object req (db s) of
        Inl e \<Rightarrow> (Inl e, s)
      | Inr obj \<Rightarrow>
          (if form_is_valid form then TeamDetail_form_valid env req form s
           else (Inr TemplateResponse, s)))"

text \<open>\<^verbatim>\<open>sep.join(xs)\<close>\<close>

fun join :: "string \<Rightarrow> string list \<Rightarrow> string" where
  "join sep [] = []"
| "join sep [x] = x"
| "join sep (x # y # ys) = x @ sep @ join sep (y # ys)"

text \<open>
  \<^verbatim>\<open>for error in self.invite_form.errors.values(): messages.error(request, "\n".join(error))\<close>
\<close>

fun messages_errors :: "(string \<times> string list) list \<Rightarrow> state \<Rightarrow> state" where
  "messages_errors [] s = s"
| "messages_errors ((field, error) # rest) s =
     messages_errors rest (messages_add Error (join [CHR 0x0A] error) s)"

text \<open>
  Modelled from the spec: \<^verbatim>\<open>TeamInviteForm.save\<close> (pretalx/event/forms.py) is missing from
  the sources. The spec: the invite sub-form "creates one or more TeamInvite records for
  a comma/newline separated list of addresses", "N semantically distinct addresses
  creates exactly N TeamInvite records", and a TeamInvite is "email address, target
  Team". So: an invite has to have a team; one record is created for each address that
  is semantically new (first occurrence of its key), with fresh pks, and the created
  records are returned.
\<close>

primrec distinct_addresses :: "(string \<Rightarrow> string) \<Rightarrow> string list \<Rightarrow> string list \<Rightarrow> string list" where
  "distinct_addresses key seen [] = []"
| "distinct_addresses key seen (a # as) =
     (if key a \<in> set seen then distinct_addresses key seen as
      else a # distinct_addresses key (key a # seen) as)"

definition next_pk :: "team_invite list \<Rightarrow> pk" where
  "next_pk invs = Suc (fold max (map invite_pk invs) 0)"

primrec create_invites :: "pk \<Rightarrow> pk \<Rightarrow> string list \<Rightarrow> team_invite list" where
  "create_invites t k [] = []"
| "create_invites t k (a # as) =
     \<lparr>invite_pk = k, invite_team = t, email = a\<rparr> # create_invites t (Suc k) as"

text \<open>
  Modelled from the spec: \<^verbatim>\<open>TeamInviteForm.save(team=...)\<close>, as described above. Without a
  team no invite can be stored (the team of an invite is mandatory).
\<close>

definition TeamInviteForm_save :: "env \<Rightarrow> team option \<Rightarrow> invite_form \<Rightarrow> state \<Rightarrow> (exn + team_invite list) \<times> state" where
  "TeamInviteForm_save env team iform s =
     (case team of
        None \<Rightarrow> (Inl (Exn IntegrityError ''NOT NULL constraint failed: team_id''), s)
      | Some t \<Rightarrow>
          (let new = create_invites (team_pk t) (next_pk (invites (db s)))
                       (distinct_addresses (address_key env) [] (cleaned_addresses iform))
           in (Inr new, s\<lparr>db := (db s)\<lparr>invites := invites (db s) @ new\<rparr>\<rparr>)))"

text \<open>
  \<^verbatim>\<open>TeamDetail.post\<close>. \<^verbatim>\<open>self.team\<close> is evaluated before \<^verbatim>\<open>save\<close> is called; nothing
  in the invite branch catches an exception.
\<close>

definition TeamDetail_post :: "env \<Rightarrow> request \<Rightarrow> invite_form \<Rightarrow> model_form \<Rightarrow> state \<Rightarrow> (exn + response) \<times> state" where
  "TeamDetail_post env req iform form s =
     (if invite_form_is_bound req then
        (if invite_form_is_valid req iform then
           (case TeamMixin_get_team req (db s) of
              Inl e \<Rightarrow> (Inl e, s)
            | Inr team \<Rightarrow>
                (case TeamInviteForm_save env team iform s of
                   (Inl e, s1) \<Rightarrow> (Inl e, s1)
                 | (Inr invs, s1) \<Rightarrow>
                     (Inr (Redirect (path req)),
                      (if length invs = 1
                       then messages_add Success ''The invitation has been sent.'' s1
                       else messages_add Success ''The invitations have been sent.'' s1))))
         else (Inr (Redirect (path req)), messages_errors (errors iform) s))
      else TeamDetail_super_post env req form s)"

subsection \<open>TeamDelete\<close>

datatype view_object = NoneObject | TeamObject team | UserObject pk

definition TeamDelete_get_permission_object :: "request \<Rightarrow> database \<Rightarrow> exn + perm_object" where
  "TeamDelete_get_permission_object req d =
     map_sum id (\<lambda>t. case t of None \<Rightarrow> PermNone | Some t' \<Rightarrow> PermTeam t')
       (TeamMixin_get_team req d)"

text \<open>
  \<^verbatim>\<open>team.members.filter(pk=user_pk).first()\<close> is the member with that pk, or None when
  the team has no such member.
\<close>

definition TeamDelete_get_object :: "request \<Rightarrow> database \<Rightarrow> exn + view_object" where
  "TeamDelete_get_object req d =
     (case TeamMixin_get_object req d of
        Inl e \<Rightarrow> Inl e
      | Inr team \<Rightarrow>
          (case kwargs_user_pk req of
             Some u \<Rightarrow>
               (case team of
                  None \<Rightarrow> Inl none_attribute
                | Some t \<Rightarrow>
                    Inr (case find (\<lambda>m. m = u) (members t) of
                           None \<Rightarrow> NoneObject
                         | Some m \<Rightarrow> UserObject m))
           | None \<Rightarrow> Inr (case team of None \<Rightarrow> NoneObject | Some t \<Rightarrow> TeamObject t)))"

text \<open>
  \<^verbatim>\<open>team.members.remove(obj)\<close>: the membership row of that user is deleted; Django
  drops a None from the ids it looks for, so \<^verbatim>\<open>remove(None)\<close> deletes no row.
\<close>

definition members_remove :: "team \<Rightarrow> pk option \<Rightarrow> state \<Rightarrow> state" where
  "members_remove t obj s =
     log_call (MembersRemove (team_pk t) obj)
       (s\<lparr>db := (db s)\<lparr>teams :=
            map (\<lambda>x. if team_pk x = team_pk t
                     then x\<lparr>members := filter (\<lambda>m. Some m \<noteq> obj) (members x)\<rparr>
                     else x)
              (teams (db s))\<rparr>\<rparr>)"

text \<open>\<^verbatim>\<open>team.delete()\<close>: the row of the team and, by cascade, its invites.\<close>

definition team_delete :: "team \<Rightarrow> state \<Rightarrow> state" where
  "team_delete t s =
     log_call (TeamDeleted (team_pk t))
       (s\<lparr>db := (db s)\<lparr>teams := filter (\<lambda>x. team_pk x \<noteq> team_pk t) (teams (db s)),
                       invites := filter (\<lambda>i. invite_team i \<noteq> team_pk t) (invites (db s))\<rparr>\<rparr>)"

text \<open>
  The check and the success message that end both branches of the atomic block.
\<close>

definition check_then_success :: "env \<Rightarrow> request \<Rightarrow> string \<Rightarrow> state \<Rightarrow> (exn + string list) \<times> state" where
  "check_then_success env req msg s =
     (case run_check env req s of
        (Inl e, s1) \<Rightarrow> (Inl e, s1)
      | (Inr warnings, s1) \<Rightarrow> (Inr warnings, messages_add Success msg s1))"

text \<open>
  The body of the atomic block of \<^verbatim>\<open>TeamDelete.post\<close>. In the member branch
  \<^verbatim>\<open>self.team\<close> is read first, then \<^verbatim>\<open>self.get_object()\<close>; \<^verbatim>\<open>get_object\<close> returns a team
  only when \<^verbatim>\<open>user_pk\<close> is absent and a member only when it is present, so the TypeError
  branches are never taken.
\<close>

definition TeamDelete_post_body :: "env \<Rightarrow> request \<Rightarrow> state \<Rightarrow> (exn + string list) \<times> state" where
  "TeamDelete_post_body env req s =
     (if kwargs_user_pk req \<noteq> None then
        (case TeamMixin_get_team req (db s) of
           Inl e \<Rightarrow> (Inl e, s)
         | Inr None \<Rightarrow> (Inl none_attribute, s)
         | Inr (Some t) \<Rightarrow>
             (case TeamDelete_get_object req (db s) of
                Inl e \<Rightarrow> (Inl e, s)
              | Inr (TeamObject t') \<Rightarrow> (Inl (Exn TypeError ''not a member''), s)
              | Inr NoneObject \<Rightarrow>
                  check_then_success env req ''The member was removed from the team.''
                    (members_remove t None s)
              | Inr (UserObject u) \<Rightarrow>
                  check_then_success env req ''The member was removed from the team.''
                    (members_remove t (Some u) s)))
      else
        (case TeamDelete_get_object req (db s) of
           Inl e \<Rightarrow> (Inl e, s)
         | Inr NoneObject \<Rightarrow> (Inl none_attribute, s)
         | Inr (UserObject u) \<Rightarrow> (Inl (Exn TypeError ''not a team''), s)
         | Inr (TeamObject t) \<Rightarrow>
             check_then_success env req ''The team was removed.'' (team_delete t s)))"

text \<open>
  Modelled from the spec: \<^verbatim>\<open>self.get(request, ...)\<close> of TeamDelete renders the
  confirmation page of ActionConfirmMixin (pretalx/common/views/mixins.py), missing from
  the sources. The spec: "on any exception, reports the error message and aborts without
  redirecting (stays on a confirmation page)". So: the object is resolved and the page is
  rendered; nothing is written.
\<close>

definition TeamDelete_get :: "request \<Rightarrow> state \<Rightarrow> (exn + response) \<times> state" where
  "TeamDelete_get req s =
     (case TeamDelete_get_object req (db s) of
        Inl e \<Rightarrow> (Inl e, s)
      | Inr obj \<Rightarrow> (Inr TemplateResponse, s))"

definition TeamDelete_post :: "env \<Rightarrow> request \<Rightarrow> state \<Rightarrow> (exn + response) \<times> state" where
  "TeamDelete_post env req s =
     (case atomic (TeamDelete_post_body env req) s of
        (Inl e, s1) \<Rightarrow> TeamDelete_get req (messages_add Error (str e) s1)
      | (Inr warnings, s1) \<Rightarrow>
          (Inr (Redirect (orga_urls_base (organiser req))), messages_warnings warnings s1))"

text \<open>
  The mutation of \<^verbatim>\<open>TeamDelete.post\<close>, the first statement of each branch of its atomic
  block, for a resolved team: \<^verbatim>\<open>team.members.remove(self.get_object())\<close> when
  \<^verbatim>\<open>user_pk\<close> is present, \<^verbatim>\<open>self.get_object().delete()\<close> otherwise.
\<close>

definition TeamDelete_mutation :: "request \<Rightarrow> team \<Rightarrow> state \<Rightarrow> state" where
  "TeamDelete_mutation req t s =
     (case kwargs_user_pk req of
        None \<Rightarrow> team_delete t s
      | Some u \<Rightarrow> members_remove t (find (\<lambda>m. m = u) (members t)) s)"

subsection \<open>InviteMixin, TeamUninvite, TeamResend\<close>

definition InviteMixin_get_permission_object :: "request \<Rightarrow> database \<Rightarrow> exn + perm_object" where
  "InviteMixin_get_permission_object req d = Inr (PermOrganiser (organiser req))"

text \<open>
  The cached properties \<^verbatim>\<open>team\<close> and \<^verbatim>\<open>object\<close> of InviteMixin: each reads the other
  before anything is cached. The first argument is the depth the interpreter still
  allows; at depth 0 Python raises RecursionError.
\<close>

fun InviteMixin_team :: "nat \<Rightarrow> request \<Rightarrow> database \<Rightarrow> exn + team"
  and InviteMixin_object :: "nat \<Rightarrow> request \<Rightarrow> database \<Rightarrow> exn + team_invite" where
  "InviteMixin_team 0 req d = Inl (Exn RecursionError ''maximum recursion depth exceeded'')"
| "InviteMixin_team (Suc n) req d =
     (case InviteMixin_object n req d of
        Inl e \<Rightarrow> Inl e
      | Inr invite \<Rightarrow> get_object_or_404 (organiser_teams d (organiser req)) team_pk (invite_team invite))"
| "InviteMixin_object 0 req d = Inl (Exn RecursionError ''maximum recursion depth exceeded'')"
| "InviteMixin_object (Suc n) req d =
     (case InviteMixin_team n req d of
        Inl e \<Rightarrow> Inl e
      | Inr t \<Rightarrow>
          (case kwargs_pk req of
             None \<Rightarrow> Inl (Exn KeyError ''pk'')
           | Some k \<Rightarrow> get_object_or_404 (team_invites d t) invite_pk k))"

text \<open>
  \<^verbatim>\<open>self.get_object()\<close> of TeamUninvite and TeamResend: neither class nor InviteMixin
  defines it, so it is the \<^verbatim>\<open>get_object\<close> of Django's detail view with
  \<^verbatim>\<open>model = TeamInvite\<close>: the invite with the pk of the URL among all invites, Http404
  when there is none.
\<close>

definition DetailView_get_object :: "request \<Rightarrow> database \<Rightarrow> exn + team_invite" where
  "DetailView_get_object req d =
     (case kwargs_pk req of
        None \<Rightarrow> Inl (Exn AttributeError ''Generic detail view must be called with an object pk'')
      | Some k \<Rightarrow> get_object_or_404 (invites d) invite_pk k)"

text \<open>\<^verbatim>\<open>invite.delete()\<close>\<close>

definition invite_delete :: "team_invite \<Rightarrow> state \<Rightarrow> state" where
  "invite_delete invite s =
     log_call (InviteDeleted (invite_pk invite))
       (s\<lparr>db := (db s)\<lparr>invites := filter (\<lambda>i. invite_pk i \<noteq> invite_pk invite) (invites (db s))\<rparr>\<rparr>)"

definition TeamUninvite_post :: "request \<Rightarrow> state \<Rightarrow> (exn + response) \<times> state" where
  "TeamUninvite_post req s =
     (case DetailView_get_object req (db s) of
        Inl e \<Rightarrow> (Inl e, s)
      | Inr invite \<Rightarrow>
          (Inr (Redirect (orga_urls_base (organiser req))),
           messages_add Success ''The team invitation was retracted.'' (invite_delete invite s)))"

definition TeamResend_post :: "env \<Rightarrow> request \<Rightarrow> state \<Rightarrow> (exn + response) \<times> state" where
  "TeamResend_post env req s =
     (case DetailView_get_object req (db s) of
        Inl e \<Rightarrow> (Inl e, s)
      | Inr invite \<Rightarrow>
          (case invite_send env invite of
             Some e \<Rightarrow> (Inl e, log_call (InviteSent (invite_pk invite)) s)
           | None \<Rightarrow>
               (Inr (Redirect (orga_urls_base (organiser req))),
                messages_add Success ''The team invitation was sent again.''
                  (log_call (InviteSent (invite_pk invite)) s))))"

subsection \<open>OrganiserDetail\<close>

text \<open>
  Modelled from the spec: the helper \<^verbatim>\<open>is_form_bound\<close> (pretalx/common/views) is missing
  from the sources. The spec: the POST branches are "distinguished by a form-discriminator
  field in the submission". So: the request is a POST whose discriminator is the name.
\<close>

definition is_form_bound :: "request \<Rightarrow> string \<Rightarrow> bool" where
  "is_form_bound req form_name =
     (request_method req = ''POST'' \<and> POST_form req = Some form_name)"

definition is_remove_sso_client_request :: "request \<Rightarrow> bool" where
  "is_remove_sso_client_request req =
     (is_form_bound req ''remove_sso_client'' \<and> POST_form req = Some ''remove_sso_client'')"

definition is_sso_client_request :: "request \<Rightarrow> sso_client_form \<Rightarrow> bool" where
  "is_sso_client_request req sso =
     (is_form_bound req ''sso_client'' \<and> POST_form req = Some ''sso_client'' \<and> sso_is_valid sso)"

text \<open>\<^verbatim>\<open>social_app.delete()\<close>\<close>

definition social_app_delete :: "social_app \<Rightarrow> state \<Rightarrow> state" where
  "social_app_delete app s =
     log_call (SocialAppDeleted (provider app))
       (s\<lparr>db := (db s)\<lparr>social_apps :=
            filter (\<lambda>a. provider a \<noteq> provider app) (social_apps (db s))\<rparr>\<rparr>)"

text \<open>
  \<^verbatim>\<open>handle_remove_sso_client\<close>: \<^verbatim>\<open>SocialApp.objects.get(provider=provider_id)\<close> raises
  DoesNotExist, caught here, or MultipleObjectsReturned, not caught here.
\<close>

definition handle_remove_sso_client :: "request \<Rightarrow> state \<Rightarrow> (exn + response) \<times> state" where
  "handle_remove_sso_client req s =
     (case filter (\<lambda>a. Some (provider a) = kwargs_organiser req) (social_apps (db s)) of
        [] \<Rightarrow> (Inr (Redirect (path req)), messages_add Error ''The key does not exist.'' s)
      | [app] \<Rightarrow> (Inr (Redirect (path req)), social_app_delete app s)
      | _ \<Rightarrow> (Inl (Exn MultipleObjectsReturned ''get() returned more than one SocialApp''), s))"

text \<open>
  \<^verbatim>\<open>save_sso_client\<close> (the logger is not modelled); \<^verbatim>\<open>get_success_url\<close> adds the
  message "Saved!" and returns the path.
\<close>

definition save_sso_client :: "request \<Rightarrow> sso_client_form \<Rightarrow> state \<Rightarrow> (exn + response) \<times> state" where
  "save_sso_client req sso s =
     (case sso_save sso (db s) of
        (Inl e, d') \<Rightarrow>
          (Inr (Redirect (path req)),
           messages_add Error (''An error occurred: '' @ str e) (s\<lparr>db := d'\<rparr>))
      | (Inr u, d') \<Rightarrow>
          (Inr (Redirect (path req)), messages_add Success ''Saved!'' (s\<lparr>db := d'\<rparr>)))"

definition handle_sso_client :: "request \<Rightarrow> sso_client_form \<Rightarrow> state \<Rightarrow> (exn + response) \<times> state" where
  "handle_sso_client req sso s = save_sso_client req sso s"

text \<open>
  Modelled from the spec: \<^verbatim>\<open>super().post(...)\<close> of OrganiserDetail is the post of
  CreateOrUpdateView, missing from the sources. The spec: "(a) ordinary organiser
  settings save"; the controller binds a form, validates, persists and redirects with a
  message. So: a valid form is saved (\<^verbatim>\<open>form_valid\<close> is not overridden, so it is Django's:
  save, then redirect to \<^verbatim>\<open>get_success_url()\<close>, which adds "Saved!"); an invalid
  one is rendered again.
\<close>

definition OrganiserDetail_super_post :: "request \<Rightarrow> model_form \<Rightarrow> state \<Rightarrow> (exn + response) \<times> state" where
  "OrganiserDetail_super_post req form s =
     (if form_is_valid form then
        (case run_save form s of
           (Inl e, s1) \<Rightarrow> (Inl e, s1)
         | (Inr u, s1) \<Rightarrow> (Inr (Redirect (path req)), messages_add Success ''Saved!'' s1))
      else (Inr TemplateResponse, s))"

text \<open>The body of the \<^verbatim>\<open>try\<close> of \<^verbatim>\<open>OrganiserDetail.post\<close>.\<close>

definition OrganiserDetail_post_body :: "request \<Rightarrow> sso_client_form \<Rightarrow> model_form \<Rightarrow> state \<Rightarrow> (exn + response) \<times> state" where
  "OrganiserDetail_post_body req sso form s =
     (if is_remove_sso_client_request req then handle_remove_sso_client req s
      else if is_sso_client_request req sso then handle_sso_client req sso s
      else OrganiserDetail_super_post req form s)"

definition OrganiserDetail_post :: "request \<Rightarrow> sso_client_form \<Rightarrow> model_form \<Rightarrow> state \<Rightarrow> (exn + response) \<times> state" where
  "OrganiserDetail_post req sso form s =
     (case OrganiserDetail_post_body req sso form s of
        (Inl e, s1) \<Rightarrow>
          (Inr (Redirect (path req)), messages_add Error (''An error occurred: '' @ str e) s1)
      | (Inr r, s1) \<Rightarrow> (Inr r, s1))"

subsection \<open>The permission gate\<close>

text \<open>
  Modelled from the spec: the mixin \<^verbatim>\<open>PermissionRequired\<close> (pretalx/common/views/mixins.py),
  whose dispatch runs before every handler, is missing from the sources. The spec:
  "every mutating operation requires a named permission evaluated against either the
  Organiser or the specific Team. This is a pre-condition checked before any other logic;
  failure short-circuits with an authorization error and no side effects." The permission
  object is what the view's \<^verbatim>\<open>get_permission_object\<close> returns; resolving it may raise.
\<close>

definition PermissionRequired_dispatch ::
  "env \<Rightarrow> request \<Rightarrow> string \<Rightarrow> (exn + perm_object) \<Rightarrow> (state \<Rightarrow> (exn + response) \<times> state)
     \<Rightarrow> state \<Rightarrow> (exn + response) \<times> state" where
  "PermissionRequired_dispatch env req permission_required permission_object handler s =
     (case permission_object of
        Inl e \<Rightarrow> (Inl e, s)
      | Inr obj \<Rightarrow>
          (if has_perm env (user req) permission_required obj then handler s
           else (Inl (Exn PermissionDenied ''Forbidden''), s)))"

text \<open>
  Modelled from the spec: OrganiserDetail does not override \<^verbatim>\<open>get_permission_object\<close>,
  and the default of the missing mixin is not in the sources. The spec: the permission
  is "evaluated against the Organiser (for create, SSO management)".
\<close>

definition OrganiserDetail_get_permission_object :: "request \<Rightarrow> database \<Rightarrow> exn + perm_object" where
  "OrganiserDetail_get_permission_object req d = Inr (PermOrganiser (organiser req))"

text \<open>The POST requests of the views, behind the gate.\<close>

definition TeamDetail_view :: "env \<Rightarrow> request \<Rightarrow> invite_form \<Rightarrow> model_form \<Rightarrow> state \<Rightarrow> (exn + response) \<times> state" where
  "TeamDetail_view env req iform form s =
     PermissionRequired_dispatch env req ''orga.change_teams''
       (TeamDetail_get_permission_object req (db s)) (TeamDetail_post env req iform form) s"

definition TeamDelete_view :: "env \<Rightarrow> request \<Rightarrow> state \<Rightarrow> (exn + response) \<times> state" where
  "TeamDelete_view env req s =
     PermissionRequired_dispatch env req ''orga.change_teams''
       (TeamDelete_get_permission_object req (db s)) (TeamDelete_post env req) s"

definition TeamUninvite_view :: "env \<Rightarrow> request \<Rightarrow> state \<Rightarrow> (exn + response) \<times> state" where
  "TeamUninvite_view env req s =
     PermissionRequired_dispatch env req ''orga.change_teams''
       (InviteMixin_get_permission_object req (db s)) (TeamUninvite_post req) s"

definition TeamResend_view :: "env \<Rightarrow> request \<Rightarrow> state \<Rightarrow> (exn + response) \<times> state" where
  "TeamResend_view env req s =
     PermissionRequired_dispatch env req ''orga.change_teams''
       (InviteMixin_get_permission_object req (db s)) (TeamResend_post env req) s"

definition OrganiserDetail_view :: "env \<Rightarrow> request \<Rightarrow> sso_client_form \<Rightarrow> model_form \<Rightarrow> state \<Rightarrow> (exn + response) \<times> state" where
  "OrganiserDetail_view env req sso form s =
     PermissionRequired_dispatch env req ''orga.change_organiser_settings''
       (OrganiserDetail_get_permission_object req (db s)) (OrganiserDetail_post req sso form) s"

subsection \<open>A concrete installation, for evaluating the views\<close>

text \<open>
  Two organisers; team 10 (two members) belongs to the first, team 20 and its invite 7 to
  the second. The checker warns when no team of the organiser has two members and raises
  when the organiser has no team left.
\<close>

definition ex_organiser :: organiser where
  "ex_organiser = \<lparr>organiser_pk = 1, orga_urls_base = ''/orga/organiser/one/''\<rparr>"

definition ex_team :: team where
  "ex_team = \<lparr>team_pk = 10, team_organiser = 1, team_name = ''Admins'', members = [100, 101]\<rparr>"

definition ex_other_team :: team where
  "ex_other_team = \<lparr>team_pk = 20, team_organiser = 2, team_name = ''Others'', members = [200]\<rparr>"

definition ex_other_invite :: team_invite where
  "ex_other_invite = \<lparr>invite_pk = 7, invite_team = 20, email = ''guest@example.org''\<rparr>"

definition ex_db :: database where
  "ex_db = \<lparr>teams = [ex_team, ex_other_team], invites = [ex_other_invite],
            social_apps = [\<lparr>provider = ''one'', client_id = ''abc''\<rparr>]\<rparr>"

definition ex_state :: state where
  "ex_state = \<lparr>db = ex_db, messages = [], calls = []\<rparr>"

definition ex_check :: "database \<Rightarrow> organiser \<Rightarrow> exn + string list" where
  "ex_check d org =
     (if organiser_teams d org = []
      then Inl (Exn OtherException ''Nobody on your teams has the permission to change teams.'')
      else if list_ex (\<lambda>t. 2 \<le> length (members t)) (organiser_teams d org) then Inr []
      else Inr [''Only one person can change teams.''])"

text \<open>The user may change the teams of organiser 1 and team 10, nothing else.\<close>

definition ex_has_perm :: "pk \<Rightarrow> string \<Rightarrow> perm_object \<Rightarrow> bool" where
  "ex_has_perm u name obj =
     (case obj of
        PermNone \<Rightarrow> False
      | PermOrganiser org \<Rightarrow> organiser_pk org = 1
      | PermTeam t \<Rightarrow> team_pk t = 10)"

definition ex_env :: env where
  "ex_env = \<lparr>check_access_permissions = ex_check, has_perm = ex_has_perm,
             invite_send = (\<lambda>i. None), address_key = (\<lambda>a. a)\<rparr>"

definition ex_request :: request where
  "ex_request = \<lparr>organiser = ex_organiser, user = 100, request_method = ''POST'',
                 path = ''/orga/organiser/one/teams/10/'', POST_form = None, GET_next = None,
                 kwargs_pk = Some 10, kwargs_user_pk = None, kwargs_organiser = Some ''one''\<rparr>"

text \<open>An edit of team 10 that leaves it with one member.\<close>

definition ex_shrink_save :: "database \<Rightarrow> (exn + unit) \<times> database" where
  "ex_shrink_save d =
     (Inr (), d\<lparr>teams := map (\<lambda>t. if team_pk t = 10 then t\<lparr>members := [100]\<rparr> else t) (teams d)\<rparr>)"

definition ex_shrink_form :: model_form where
  "ex_shrink_form = \<lparr>instance_pk = Some 10, form_is_valid = True, has_changed = True,
                     form_save = ex_shrink_save\<rparr>"

text \<open>A save that writes (it drops every team) and then raises.\<close>

definition ex_failing_save :: "database \<Rightarrow> (exn + unit) \<times> database" where
  "ex_failing_save d = (Inl (Exn IntegrityError ''duplicate team name''), d\<lparr>teams := []\<rparr>)"

definition ex_failing_form :: model_form where
  "ex_failing_form = \<lparr>instance_pk = Some 10, form_is_valid = True, has_changed = True,
                      form_save = ex_failing_save\<rparr>"

text \<open>
  A second team of organiser 1, which the user may not change, and an invite to it.
\<close>

definition ex_second_team :: team where
  "ex_second_team = \<lparr>team_pk = 11, team_organiser = 1, team_name = ''Reviewers'', members = [102]\<rparr>"

definition ex_own_invite :: team_invite where
  "ex_own_invite = \<lparr>invite_pk = 8, invite_team = 11, email = ''reviewer@example.org''\<rparr>"

definition ex_state_own_invite :: state where
  "ex_state_own_invite =
     \<lparr>db = \<lparr>teams = [ex_team, ex_second_team], invites = [ex_own_invite], social_apps = []\<rparr>,
      messages = [], calls = []\<rparr>"

definition ex_sso_form :: sso_client_form where
  "ex_sso_form = \<lparr>sso_is_valid = False, sso_save = (\<lambda>d. (Inr (), d))\<rparr>"

text \<open>The mail sender is down; the user has no permission at all.\<close>

definition ex_mail_down :: env where
  "ex_mail_down = ex_env\<lparr>invite_send := (\<lambda>i. Some (Exn SendMailException ''Connection refused''))\<rparr>"

definition ex_no_perm :: env where
  "ex_no_perm = ex_env\<lparr>has_perm := (\<lambda>u name obj. False)\<rparr>"

text \<open>Two invite submissions: one with two invalid fields, one with three addresses, two distinct.\<close>

definition ex_invalid_invite_form :: invite_form where
  "ex_invalid_invite_form =
     \<lparr>errors = [(''email'', [''Enter a valid email address.'', ''This field is required.'']),
                (''bulk_email'', [''Too many addresses.''])],
      cleaned_addresses = []\<rparr>"

definition ex_invite_form :: invite_form where
  "ex_invite_form =
     \<lparr>errors = [], cleaned_addresses = [''a@example.org'', ''b@example.org'', ''a@example.org'']\<rparr>"

section \<open>Properties\<close>

subsection \<open>Helper lemmas\<close>

text \<open>The definitions of the concrete installation, for evaluation.\<close>

lemmas ex_defs = ex_state_def ex_db_def ex_team_def ex_other_team_def ex_other_invite_def
  ex_env_def ex_check_def ex_request_def ex_organiser_def

lemma messages_warnings_eq:
  "messages_warnings ws s = s\<lparr>messages := messages s @ map (Pair Warning) ws\<rparr>"
  by (induction ws arbitrary: s) (simp_all add: messages_add_def)

lemma TeamDetail_get_state: "snd (TeamDetail_get req s) = s"
  by (simp add: TeamDetail_get_def split: sum.splits)

lemma TeamDetail_get_no_redirect: "fst (TeamDetail_get req s) \<noteq> Inr (Redirect u)"
  by (simp add: TeamDetail_get_def split: sum.splits)

lemma TeamDetail_get_db_only:
  "db s = db s' \<Longrightarrow> fst (TeamDetail_get req s) = fst (TeamDetail_get req s')"
  by (simp add: TeamDetail_get_def split: sum.splits)

subsection \<open>Team edits: warnings do not block, exceptions roll back\<close>

text \<open>
  C1. For every edit of an existing team (the form's instance has a pk) whose save
  succeeds, if the invariant check returns a non-empty list of warnings without raising,
  the atomic block commits: \<^verbatim>\<open>form_valid\<close> goes on to the success path
  (\<^verbatim>\<open>super().form_valid\<close>) from the saved database, with one warning message per
  returned warning, in order, followed by the "saved" message when the form has changed.
  No rollback happens, and every returned warning is among the messages of the response.
\<close>

theorem C1_edit_with_warnings_is_committed:
  assumes "instance_pk form = Some k" and "k \<noteq> 0"
    and "form_save form (db s) = (Inr (), d1)"
    and "check_access_permissions env d1 (organiser req) = Inr ws" and "ws \<noteq> []"
  shows "TeamDetail_form_valid env req form s =
           ModelFormMixin_form_valid (TeamDetail_get_success_url req) form
             \<lparr>db = d1,
              messages = messages s @ map (Pair Warning) ws @
                (if has_changed form then [(Success, ''The settings have been saved.'')] else []),
              calls = calls s @ [AtomicEnter, FormSave,
                CheckAccessPermissions (organiser_pk (organiser req)), AtomicCommit]\<rparr>
         \<and> (\<forall>w \<in> set ws. (Warning, w) \<in> set (messages (snd (TeamDetail_form_valid env req form s))))
         \<and> db (snd (TeamDetail_form_valid env req form s)) = snd (form_save form d1)
         \<and> calls (snd (TeamDetail_form_valid env req form s)) =
             calls s @ [AtomicEnter, FormSave,
                CheckAccessPermissions (organiser_pk (organiser req)), AtomicCommit, FormSave]"
proof -
  have c: "\<not> created form" using assms(1,2) by (simp add: created_def)
  have body: "form_valid_body env req form (log_call AtomicEnter s) =
      (Inr ws, \<lparr>db = d1, messages = messages s,
         calls = calls s @ [AtomicEnter, FormSave, CheckAccessPermissions (organiser_pk (organiser req))]\<rparr>)"
    using assms(3,4) c
    by (simp add: form_valid_body_def run_save_def run_check_def log_call_def)
  have eq: "TeamDetail_form_valid env req form s =
           ModelFormMixin_form_valid (TeamDetail_get_success_url req) form
             \<lparr>db = d1,
              messages = messages s @ map (Pair Warning) ws @
                (if has_changed form then [(Success, ''The settings have been saved.'')] else []),
              calls = calls s @ [AtomicEnter, FormSave,
                CheckAccessPermissions (organiser_pk (organiser req)), AtomicCommit]\<rparr>"
    unfolding TeamDetail_form_valid_def atomic_def body
    using c by (simp add: log_call_def messages_warnings_eq messages_add_def)
  show ?thesis
    unfolding eq
    by (auto simp add: ModelFormMixin_form_valid_def run_save_def log_call_def
        split: prod.splits sum.splits)
qed

theorem C1_edit_with_warnings_is_committed_witness:
  "TeamDetail_form_valid ex_env ex_request ex_shrink_form ex_state =
     (Inr (Redirect ''/orga/organiser/one/teams/10/''),
      \<lparr>db = ex_db\<lparr>teams := [ex_team\<lparr>members := [100]\<rparr>, ex_other_team]\<rparr>,
       messages = [(Warning, ''Only one person can change teams.''),
                   (Success, ''The settings have been saved.'')],
       calls = [AtomicEnter, FormSave, CheckAccessPermissions 1, AtomicCommit, FormSave]\<rparr>)"
  using C1_edit_with_warnings_is_committed [of ex_shrink_form 10 ex_state
      "ex_db\<lparr>teams := [ex_team\<lparr>members := [100]\<rparr>, ex_other_team]\<rparr>" ex_env ex_request
      "[''Only one person can change teams.'']"]
  by (simp add: ex_shrink_form_def ex_shrink_save_def ex_state_def ex_db_def ex_team_def
      ex_other_team_def ex_env_def ex_check_def ex_request_def ex_organiser_def
      organiser_teams_def ModelFormMixin_form_valid_def run_save_def log_call_def
      TeamDetail_get_success_url_def)

text \<open>
  C4. For every team create-or-update in which an exception is raised inside the atomic
  block (by \<^verbatim>\<open>form.save()\<close>, whatever it wrote before raising, or by the invariant check
  that follows the save of an edit), the database after the request is the database
  before it, the message of the exception is added as an error message (and no other
  message), the block ends in a rollback, and the response is the one of
  \<^verbatim>\<open>self.get(...)\<close> on the unchanged database: never a redirect.
\<close>

theorem C4_exception_in_atomic_block_rolls_back:
  assumes "(\<exists>d1. form_save form (db s) = (Inl e, d1)) \<or>
           (\<not> created form \<and> (\<exists>d1. form_save form (db s) = (Inr (), d1) \<and>
              check_access_permissions env d1 (organiser req) = Inl e))"
  shows "db (snd (TeamDetail_form_valid env req form s)) = db s
       \<and> messages (snd (TeamDetail_form_valid env req form s)) = messages s @ [(Error, str e)]
       \<and> last (calls (snd (TeamDetail_form_valid env req form s))) = AtomicRollback
       \<and> fst (TeamDetail_form_valid env req form s) = fst (TeamDetail_get req s)
       \<and> (\<forall>u. fst (TeamDetail_form_valid env req form s) \<noteq> Inr (Redirect u))"
proof -
  obtain s1 where body: "form_valid_body env req form (log_call AtomicEnter s) = (Inl e, s1)"
    using assms
    by (auto simp add: form_valid_body_def run_save_def run_check_def log_call_def)
  define s2 where "s2 = messages_add Error (str e) (log_call AtomicRollback (s1\<lparr>db := db s\<rparr>))"
  have m1: "messages s1 = messages s"
    using body
    by (auto simp add: form_valid_body_def run_save_def run_check_def log_call_def
        split: prod.splits sum.splits if_splits)
  have R: "TeamDetail_form_valid env req form s = TeamDetail_get req s2"
    by (simp add: TeamDetail_form_valid_def atomic_def body s2_def)
  have d2: "db s2 = db s" and m2: "messages s2 = messages s @ [(Error, str e)]"
    and c2: "last (calls s2) = AtomicRollback"
    by (simp_all add: s2_def messages_add_def log_call_def m1)
  show ?thesis
    unfolding R
    using d2 m2 c2 TeamDetail_get_db_only[of s2 s req]
    by (simp add: TeamDetail_get_state TeamDetail_get_no_redirect)
qed

theorem C4_exception_in_atomic_block_rolls_back_witness:
  "db (snd (TeamDetail_form_valid ex_env ex_request ex_failing_form ex_state)) = ex_db
   \<and> messages (snd (TeamDetail_form_valid ex_env ex_request ex_failing_form ex_state)) =
       [(Error, ''duplicate team name'')]
   \<and> fst (TeamDetail_form_valid ex_env ex_request ex_failing_form ex_state) = Inr TemplateResponse
   \<and> snd (ex_failing_save ex_db) \<noteq> ex_db"
  using C4_exception_in_atomic_block_rolls_back [of ex_failing_form ex_state
      "Exn IntegrityError ''duplicate team name''" ex_env ex_request]
  by (simp add: ex_failing_form_def ex_failing_save_def ex_state_def ex_db_def ex_team_def
      ex_other_team_def ex_request_def ex_organiser_def TeamDetail_get_def
      TeamDetail_get_object_def TeamMixin_get_object_def TeamMixin_get_team_def
      get_object_or_404_def organiser_teams_def)

subsection \<open>Team deletion and member removal\<close>

lemma TeamDelete_get_state: "snd (TeamDelete_get req s) = s"
  by (simp add: TeamDelete_get_def split: sum.splits)

lemma check_then_success_calls:
  "calls (snd (check_then_success env req msg s)) =
     calls s @ [CheckAccessPermissions (organiser_pk (organiser req))]"
  by (simp add: check_then_success_def run_check_def log_call_def messages_add_def
      split: sum.splits)

lemma check_then_success_isl:
  "isl (fst (check_then_success env req msg s)) =
     isl (check_access_permissions env (db s) (organiser req))"
  by (simp add: check_then_success_def run_check_def log_call_def split: sum.splits)

lemma atomic_calls:
  "calls (snd (atomic body s)) =
     calls (snd (body (log_call AtomicEnter s))) @
       [if isl (fst (body (log_call AtomicEnter s))) then AtomicRollback else AtomicCommit]"
  by (simp add: atomic_def log_call_def split: prod.splits sum.splits)

lemma TeamDelete_post_calls:
  "calls (snd (TeamDelete_post env req s)) = calls (snd (atomic (TeamDelete_post_body env req) s))"
proof (cases "atomic (TeamDelete_post_body env req) s")
  case (Pair r s1)
  show ?thesis
  proof (cases r)
    case (Inl e)
    have "snd (TeamDelete_post env req s) = messages_add Error (str e) s1"
      by (simp add: TeamDelete_post_def Pair Inl TeamDelete_get_state)
    then show ?thesis by (simp add: Pair messages_add_def)
  next
    case (Inr ws)
    then show ?thesis
      by (simp add: TeamDelete_post_def Pair messages_warnings_eq)
  qed
qed

lemma TeamDelete_post_body_resolved:
  assumes "TeamMixin_get_team req (db s) = Inr (Some t)"
  shows "TeamDelete_post_body env req s =
           check_then_success env req
             (if kwargs_user_pk req = None then ''The team was removed.''
              else ''The member was removed from the team.'')
             (TeamDelete_mutation req t s)"
proof (cases "kwargs_user_pk req")
  case None
  then show ?thesis
    using assms
    by (simp add: TeamDelete_post_body_def TeamDelete_get_object_def
        TeamMixin_get_object_def TeamDelete_mutation_def)
next
  case (Some u)
  then show ?thesis
    using assms
    by (cases "find (\<lambda>m. m = u) (members t)")
       (simp_all add: TeamDelete_post_body_def TeamDelete_get_object_def
        TeamMixin_get_object_def TeamDelete_mutation_def)
qed


lemma TeamDelete_mutation_calls:
  "calls (TeamDelete_mutation req t s) =
     calls s @ [case kwargs_user_pk req of
                  None \<Rightarrow> TeamDeleted (team_pk t)
                | Some u \<Rightarrow> MembersRemove (team_pk t) (find (\<lambda>m. m = u) (members t))]"
  by (simp add: TeamDelete_mutation_def team_delete_def members_remove_def log_call_def
      split: option.splits)

lemma TeamDelete_mutation_log:
  "TeamDelete_mutation req t (log_call ev s) =
     (TeamDelete_mutation req t s)\<lparr>calls := calls s @ [ev] @
       [case kwargs_user_pk req of
                  None \<Rightarrow> TeamDeleted (team_pk t)
                | Some u \<Rightarrow> MembersRemove (team_pk t) (find (\<lambda>m. m = u) (members t))]\<rparr>"
  by (simp add: TeamDelete_mutation_def team_delete_def members_remove_def log_call_def
      split: option.splits)

text \<open>
  C2. For every team-deletion and every member-removal POST whose team resolves (the
  permission gate has resolved the same team before the handler runs), the calls of the
  handler are, in this order: the atomic block is entered, the mutation (the delete of
  the team, or the removal of the member), one call of \<^verbatim>\<open>check_access_permissions\<close>,
  and the end of the same atomic block (a commit when the check returns, a rollback when
  it raises). So the checker is called exactly once, after the mutation, inside the
  atomic block of the mutation.
\<close>

theorem C2_check_once_after_mutation_in_same_atomic_block:
  assumes "TeamMixin_get_team req (db s) = Inr (Some t)"
  shows "calls (snd (TeamDelete_post env req s)) =
           calls s @
             [AtomicEnter,
              (case kwargs_user_pk req of
                 None \<Rightarrow> TeamDeleted (team_pk t)
               | Some u \<Rightarrow> MembersRemove (team_pk t) (find (\<lambda>m. m = u) (members t))),
              CheckAccessPermissions (organiser_pk (organiser req)),
              (if isl (check_access_permissions env (db (TeamDelete_mutation req t s)) (organiser req))
               then AtomicRollback else AtomicCommit)]"
proof -
  have r: "TeamMixin_get_team req (db (log_call AtomicEnter s)) = Inr (Some t)"
    using assms by (simp add: log_call_def)
  have d: "db (TeamDelete_mutation req t (log_call AtomicEnter s)) = db (TeamDelete_mutation req t s)"
    by (simp add: TeamDelete_mutation_log)
  show ?thesis
    unfolding TeamDelete_post_calls atomic_calls TeamDelete_post_body_resolved [OF r]
      check_then_success_calls check_then_success_isl d
    by (simp add: TeamDelete_mutation_log)
qed

theorem C2_check_once_after_mutation_in_same_atomic_block_witness:
  "calls (snd (TeamDelete_post ex_env (ex_request\<lparr>kwargs_user_pk := Some 101\<rparr>) ex_state)) =
     [AtomicEnter, MembersRemove 10 (Some 101), CheckAccessPermissions 1, AtomicCommit]
   \<and> calls (snd (TeamDelete_post ex_env ex_request ex_state)) =
     [AtomicEnter, TeamDeleted 10, CheckAccessPermissions 1, AtomicRollback]"
  using C2_check_once_after_mutation_in_same_atomic_block
      [of "ex_request\<lparr>kwargs_user_pk := Some 101\<rparr>" ex_state ex_team ex_env]
    C2_check_once_after_mutation_in_same_atomic_block
      [of ex_request ex_state ex_team ex_env]
  by (simp add: ex_defs TeamMixin_get_team_def get_object_or_404_def organiser_teams_def
      TeamDelete_mutation_def members_remove_def team_delete_def log_call_def)

lemma TeamDelete_post_db:
  "db (snd (TeamDelete_post env req s)) = db (snd (atomic (TeamDelete_post_body env req) s))"
proof (cases "atomic (TeamDelete_post_body env req) s")
  case (Pair r s1)
  show ?thesis
  proof (cases r)
    case (Inl e)
    have "snd (TeamDelete_post env req s) = messages_add Error (str e) s1"
      by (simp add: TeamDelete_post_def Pair Inl TeamDelete_get_state)
    then show ?thesis by (simp add: Pair messages_add_def)
  next
    case (Inr ws)
    then show ?thesis
      by (simp add: TeamDelete_post_def Pair messages_warnings_eq)
  qed
qed

lemma atomic_db:
  "db (snd (atomic body s)) =
     (if isl (fst (body (log_call AtomicEnter s))) then db s
      else db (snd (body (log_call AtomicEnter s))))"
  by (simp add: atomic_def log_call_def split: prod.splits sum.splits)

lemma check_then_success_db: "db (snd (check_then_success env req msg s)) = db s"
  by (simp add: check_then_success_def run_check_def log_call_def messages_add_def
      split: sum.splits)

lemma members_remove_None_db: "db (members_remove t None s) = db s"
proof -
  have "(\<lambda>x::team. if team_pk x = team_pk t
           then x\<lparr>members := filter (\<lambda>m. Some m \<noteq> None) (members x)\<rparr> else x) = (\<lambda>x. x)"
    by (rule ext) simp
  then show ?thesis
    by (simp add: members_remove_def log_call_def)
qed

text \<open>
  C10. For every member-removal request whose \<^verbatim>\<open>user_pk\<close> is not a member of the resolved
  team, \<^verbatim>\<open>get_object\<close> returns None (it does not raise Http404), and the POST goes on:
  it calls \<^verbatim>\<open>members.remove(None)\<close>, which removes nothing, then the checker, and leaves
  the database as it was.
\<close>

theorem C10_non_member_resolves_to_None:
  assumes "TeamMixin_get_team req (db s) = Inr (Some t)"
    and "kwargs_user_pk req = Some u" and "u \<notin> set (members t)"
  shows "TeamDelete_get_object req (db s) = Inr NoneObject
       \<and> calls (snd (TeamDelete_post env req s)) =
           calls s @
             [AtomicEnter, MembersRemove (team_pk t) None,
              CheckAccessPermissions (organiser_pk (organiser req)),
              (if isl (check_access_permissions env (db s) (organiser req))
               then AtomicRollback else AtomicCommit)]
       \<and> db (snd (TeamDelete_post env req s)) = db s"
proof -
  have f: "find (\<lambda>m. m = u) (members t) = None"
    using assms(3) by (simp add: find_None_iff)
  have m: "TeamDelete_mutation req t s' = members_remove t None s'" for s'
    by (simp add: TeamDelete_mutation_def assms(2) f)
  have r: "TeamMixin_get_team req (db (log_call AtomicEnter s)) = Inr (Some t)"
    using assms(1) by (simp add: log_call_def)
  have g: "TeamDelete_get_object req (db s) = Inr NoneObject"
    using assms(1,2) f by (simp add: TeamDelete_get_object_def TeamMixin_get_object_def)
  have c: "calls (snd (TeamDelete_post env req s)) =
           calls s @
             [AtomicEnter, MembersRemove (team_pk t) None,
              CheckAccessPermissions (organiser_pk (organiser req)),
              (if isl (check_access_permissions env (db s) (organiser req))
               then AtomicRollback else AtomicCommit)]"
    unfolding TeamDelete_post_calls atomic_calls TeamDelete_post_body_resolved [OF r]
      check_then_success_calls check_then_success_isl m members_remove_None_db
    by (simp add: members_remove_def log_call_def)
  have d: "db (snd (TeamDelete_post env req s)) = db s"
    unfolding TeamDelete_post_db atomic_db TeamDelete_post_body_resolved [OF r]
      check_then_success_db m members_remove_None_db
    by (simp add: log_call_def)
  show ?thesis using g c d by simp
qed


theorem C10_non_member_resolves_to_None_witness:
  "TeamDelete_get_object (ex_request\<lparr>kwargs_user_pk := Some 999\<rparr>) ex_db = Inr NoneObject
   \<and> calls (snd (TeamDelete_post ex_env (ex_request\<lparr>kwargs_user_pk := Some 999\<rparr>) ex_state)) =
     [AtomicEnter, MembersRemove 10 None, CheckAccessPermissions 1, AtomicCommit]
   \<and> db (snd (TeamDelete_post ex_env (ex_request\<lparr>kwargs_user_pk := Some 999\<rparr>) ex_state)) = ex_db"
  using C10_non_member_resolves_to_None
      [of "ex_request\<lparr>kwargs_user_pk := Some 999\<rparr>" ex_state ex_team 999 ex_env]
  by (simp add: ex_defs TeamMixin_get_team_def get_object_or_404_def organiser_teams_def)

subsection \<open>Resolution of teams and invites\<close>

text \<open>
  A team is resolved among the teams of the organiser of the request: a pk that is not
  the pk of one of them gives Http404.
\<close>

lemma TeamMixin_get_team_other_organiser:
  assumes "kwargs_pk req = Some k"
    and "k \<notin> team_pk ` set (organiser_teams d (organiser req))"
  shows "TeamMixin_get_team req d = Inl (Exn Http404 ''No object matches the given query.'')"
proof -
  have "filter (\<lambda>x. team_pk x = k) (organiser_teams d (organiser req)) = []"
    using assms(2) by (auto simp add: filter_empty_conv)
  then show ?thesis
    using assms(1) by (simp add: TeamMixin_get_team_def get_object_or_404_def)
qed

text \<open>
  The scoped resolvers of InviteMixin never return an object: \<^verbatim>\<open>team\<close> needs
  \<^verbatim>\<open>object\<close> and \<^verbatim>\<open>object\<close> needs \<^verbatim>\<open>team\<close>.
\<close>

lemma InviteMixin_never_resolves:
  "isl (InviteMixin_team n req d) \<and> isl (InviteMixin_object n req d)"
  by (induction n) (auto split: sum.splits)

text \<open>
  C3. The claim: a request that names a team or an invite by a pk that does not belong
  to the organiser of the request fails with NotFound, and the object is never returned,
  deleted or re-sent. For teams this is \<open>TeamMixin_get_team_other_organiser\<close>. For
  invites the code does otherwise: \<^verbatim>\<open>TeamUninvite.post\<close> resolves the invite with
  \<^verbatim>\<open>self.get_object()\<close>, over all invites. Here the user of organiser 1 retracts
  invite 7, which belongs to team 20 of organiser 2: the invite is deleted and the
  request is answered with the success message and a redirect.
\<close>

theorem C3_invite_of_another_organiser_is_deleted:
  "invite_team ex_other_invite \<notin> team_pk ` set (organiser_teams ex_db ex_organiser)
   \<and> TeamUninvite_view ex_env (ex_request\<lparr>kwargs_pk := Some 7\<rparr>) ex_state =
       (Inr (Redirect ''/orga/organiser/one/''),
        \<lparr>db = ex_db\<lparr>invites := []\<rparr>,
         messages = [(Success, ''The team invitation was retracted.'')],
         calls = [InviteDeleted 7]\<rparr>)"
  by (simp add: ex_defs TeamUninvite_view_def PermissionRequired_dispatch_def
      InviteMixin_get_permission_object_def ex_has_perm_def TeamUninvite_post_def
      DetailView_get_object_def get_object_or_404_def invite_delete_def log_call_def
      messages_add_def organiser_teams_def)

subsection \<open>Exceptions of POST handlers\<close>

text \<open>
  C5, as stated, fails: not every POST handler catches its exceptions.
  \<^verbatim>\<open>TeamUninvite.post\<close> has no \<^verbatim>\<open>try\<close>: the Http404 of an unknown invite leaves the
  handler, with no message and no redirect; so does the exception of the mail sender in
  \<^verbatim>\<open>TeamResend.post\<close>.
\<close>

theorem C5_exception_leaves_TeamUninvite_post:
  "TeamUninvite_post (ex_request\<lparr>kwargs_pk := Some 99\<rparr>) ex_state =
     (Inl (Exn Http404 ''No object matches the given query.''), ex_state)
   \<and> TeamResend_post ex_mail_down (ex_request\<lparr>kwargs_pk := Some 7\<rparr>) ex_state =
     (Inl (Exn SendMailException ''Connection refused''), ex_state\<lparr>calls := [InviteSent 7]\<rparr>)"
  by (simp add: ex_defs ex_mail_down_def TeamUninvite_post_def TeamResend_post_def
      DetailView_get_object_def get_object_or_404_def log_call_def)

text \<open>
  C5, amended. For every POST handled by OrganiserDetail (settings save, SSO client
  save, SSO client removal), the handler returns a response and never raises; an
  exception that leaves the body of its \<^verbatim>\<open>try\<close> (one not handled by a more specific
  branch) is answered with the error message "An error occurred: " followed by the
  message of the exception, and a redirect to the path of the request.
\<close>

theorem C5_OrganiserDetail_post_catches_every_exception:
  "(\<exists>r. fst (OrganiserDetail_post req sso form s) = Inr r)
   \<and> (\<forall>e s1. OrganiserDetail_post_body req sso form s = (Inl e, s1) \<longrightarrow>
         OrganiserDetail_post req sso form s =
           (Inr (Redirect (path req)),
            s1\<lparr>messages := messages s1 @ [(Error, ''An error occurred: '' @ str e)]\<rparr>))"
  by (auto simp add: OrganiserDetail_post_def messages_add_def split: prod.splits sum.splits)

theorem C5_OrganiserDetail_post_catches_every_exception_witness:
  "OrganiserDetail_post ex_request ex_sso_form ex_failing_form ex_state =
     (Inr (Redirect ''/orga/organiser/one/teams/10/''),
      \<lparr>db = ex_db\<lparr>teams := []\<rparr>,
       messages = [(Error, ''An error occurred: duplicate team name'')],
       calls = [FormSave]\<rparr>)"
  using C5_OrganiserDetail_post_catches_every_exception
    [of ex_request ex_sso_form ex_failing_form ex_state]
  by (simp add: ex_defs ex_sso_form_def ex_failing_form_def ex_failing_save_def
      OrganiserDetail_post_body_def is_remove_sso_client_request_def is_sso_client_request_def
      is_form_bound_def OrganiserDetail_super_post_def run_save_def log_call_def)

text \<open>
  C9. For every SSO-client removal request whose provider id matches no SSO client
  record, the handler adds the error message "The key does not exist.", changes nothing
  else (no row is deleted, no call is made), raises nothing, and redirects to the path of
  the request. The same holds of \<^verbatim>\<open>OrganiserDetail.post\<close> as a whole.
\<close>

theorem C9_remove_missing_sso_client:
  assumes "is_remove_sso_client_request req"
    and "\<forall>a \<in> set (social_apps (db s)). Some (provider a) \<noteq> kwargs_organiser req"
  shows "OrganiserDetail_post req sso form s =
           (Inr (Redirect (path req)),
            s\<lparr>messages := messages s @ [(Error, ''The key does not exist.'')]\<rparr>)
       \<and> handle_remove_sso_client req s =
           (Inr (Redirect (path req)),
            s\<lparr>messages := messages s @ [(Error, ''The key does not exist.'')]\<rparr>)"
proof -
  have "filter (\<lambda>a. Some (provider a) = kwargs_organiser req) (social_apps (db s)) = []"
    using assms(2) by (auto simp add: filter_empty_conv)
  then have h: "handle_remove_sso_client req s =
           (Inr (Redirect (path req)),
            s\<lparr>messages := messages s @ [(Error, ''The key does not exist.'')]\<rparr>)"
    by (simp add: handle_remove_sso_client_def messages_add_def)
  show ?thesis
    using assms(1) h by (simp add: OrganiserDetail_post_def OrganiserDetail_post_body_def)
qed

theorem C9_remove_missing_sso_client_witness:
  "OrganiserDetail_post
     (ex_request\<lparr>POST_form := Some ''remove_sso_client'', kwargs_organiser := Some ''two''\<rparr>)
     ex_sso_form ex_failing_form ex_state =
     (Inr (Redirect ''/orga/organiser/one/teams/10/''),
      \<lparr>db = ex_db, messages = [(Error, ''The key does not exist.'')], calls = []\<rparr>)"
  using C9_remove_missing_sso_client
    [of "ex_request\<lparr>POST_form := Some ''remove_sso_client'', kwargs_organiser := Some ''two''\<rparr>"
        ex_state ex_sso_form ex_failing_form]
  by (simp add: ex_defs is_remove_sso_client_request_def is_form_bound_def)


subsection \<open>The permission gate\<close>

text \<open>
  C6, as stated, fails for the invite actions: InviteMixin evaluates the permission
  against the organiser, not against the team of the invite. The user may change the
  teams of organiser 1 and has no permission on team 11; the invite to team 11 is
  retracted all the same.
\<close>

theorem C6_invite_retracted_without_permission_on_its_team:
  "\<not> has_perm ex_env 100 ''orga.change_teams'' (PermTeam ex_second_team)
   \<and> invite_team ex_own_invite = team_pk ex_second_team
   \<and> InviteMixin_get_permission_object (ex_request\<lparr>kwargs_pk := Some 8\<rparr>) (db ex_state_own_invite) =
       Inr (PermOrganiser ex_organiser)
   \<and> TeamUninvite_view ex_env (ex_request\<lparr>kwargs_pk := Some 8\<rparr>) ex_state_own_invite =
       (Inr (Redirect ''/orga/organiser/one/''),
        \<lparr>db = \<lparr>teams = [ex_team, ex_second_team], invites = [], social_apps = []\<rparr>,
         messages = [(Success, ''The team invitation was retracted.'')],
         calls = [InviteDeleted 8]\<rparr>)"
  by (simp add: ex_defs ex_state_own_invite_def ex_second_team_def ex_own_invite_def
      TeamUninvite_view_def PermissionRequired_dispatch_def
      InviteMixin_get_permission_object_def ex_has_perm_def TeamUninvite_post_def
      DetailView_get_object_def get_object_or_404_def invite_delete_def log_call_def
      messages_add_def)

text \<open>
  C6, amended. The permission object is the organiser for team creation (TeamDetail
  without a pk), for OrganiserDetail (settings and SSO management) and for the invite
  actions of InviteMixin (retract, resend); it is the resolved team for team edit
  (TeamDetail with a pk, the invite sub-form included) and for team deletion and member
  removal. When the permission check on that object fails, the request is rejected with
  the authorization error before the handler runs, and the state is unchanged.
\<close>

theorem C6_permission_objects_and_gate:
  "(kwargs_pk req = None \<longrightarrow>
      TeamDetail_get_permission_object req d = Inr (PermOrganiser (organiser req)))
   \<and> (kwargs_pk req \<noteq> None \<and> TeamMixin_get_team req d = Inr (Some t) \<longrightarrow>
        TeamDetail_get_permission_object req d = Inr (PermTeam t)
        \<and> TeamDelete_get_permission_object req d = Inr (PermTeam t))
   \<and> InviteMixin_get_permission_object req d = Inr (PermOrganiser (organiser req))
   \<and> OrganiserDetail_get_permission_object req d = Inr (PermOrganiser (organiser req))
   \<and> (\<forall>obj. TeamDetail_get_permission_object req (db s) = Inr obj
          \<and> \<not> has_perm env (user req) ''orga.change_teams'' obj \<longrightarrow>
        TeamDetail_view env req iform form s = (Inl (Exn PermissionDenied ''Forbidden''), s))
   \<and> (\<forall>obj. TeamDelete_get_permission_object req (db s) = Inr obj
          \<and> \<not> has_perm env (user req) ''orga.change_teams'' obj \<longrightarrow>
        TeamDelete_view env req s = (Inl (Exn PermissionDenied ''Forbidden''), s))
   \<and> (\<not> has_perm env (user req) ''orga.change_teams'' (PermOrganiser (organiser req)) \<longrightarrow>
        TeamUninvite_view env req s = (Inl (Exn PermissionDenied ''Forbidden''), s)
        \<and> TeamResend_view env req s = (Inl (Exn PermissionDenied ''Forbidden''), s))
   \<and> (\<not> has_perm env (user req) ''orga.change_organiser_settings''
           (PermOrganiser (organiser req)) \<longrightarrow>
        OrganiserDetail_view env req sso form s = (Inl (Exn PermissionDenied ''Forbidden''), s))"
  by (simp add: TeamDetail_get_permission_object_def TeamDelete_get_permission_object_def
      TeamDetail_get_object_def TeamMixin_get_object_def
      InviteMixin_get_permission_object_def OrganiserDetail_get_permission_object_def
      TeamDetail_view_def TeamDelete_view_def TeamUninvite_view_def TeamResend_view_def
      OrganiserDetail_view_def PermissionRequired_dispatch_def)

theorem C6_permission_objects_and_gate_witness:
  "TeamDelete_get_permission_object ex_request ex_db = Inr (PermTeam ex_team)
   \<and> TeamDelete_view ex_no_perm ex_request ex_state =
       (Inl (Exn PermissionDenied ''Forbidden''), ex_state)
   \<and> TeamUninvite_view ex_no_perm (ex_request\<lparr>kwargs_pk := Some 7\<rparr>) ex_state =
       (Inl (Exn PermissionDenied ''Forbidden''), ex_state)"
  using C6_permission_objects_and_gate [of ex_request ex_db ex_team ex_state ex_no_perm]
    C6_permission_objects_and_gate [of "ex_request\<lparr>kwargs_pk := Some 7\<rparr>" ex_db ex_team ex_state ex_no_perm]
  by (simp add: ex_defs ex_no_perm_def TeamMixin_get_team_def get_object_or_404_def
      organiser_teams_def)

subsection \<open>The invite sub-form\<close>

lemma messages_errors_eq:
  "messages_errors es s =
     s\<lparr>messages := messages s @ map (\<lambda>fe. (Error, join [CHR 0x0A] (snd fe))) es\<rparr>"
  by (induction es arbitrary: s) (auto simp add: messages_add_def)

text \<open>
  C8. For every invalid submission of the invite sub-form (bound, not valid), one error
  message is added per entry of \<^verbatim>\<open>form.errors\<close> (its error strings joined by newlines),
  there is at least one, the database is unchanged, and the response is a redirect to the
  path of the request; and whatever the invite form holds, every response the invite
  branch returns is that redirect.
\<close>

theorem C8_invalid_invite_form:
  assumes "invite_form_is_bound req" and "\<not> invite_form_is_valid req iform"
  shows "TeamDetail_post env req iform form s =
           (Inr (Redirect (path req)),
            s\<lparr>messages := messages s @
                 map (\<lambda>fe. (Error, join [CHR 0x0A] (snd fe))) (errors iform)\<rparr>)
       \<and> db (snd (TeamDetail_post env req iform form s)) = db s
       \<and> length (messages (snd (TeamDetail_post env req iform form s))) =
           length (messages s) + length (errors iform)
       \<and> errors iform \<noteq> []
       \<and> (\<forall>iform' r. fst (TeamDetail_post env req iform' form s) = Inr r \<longrightarrow>
             r = Redirect (path req))"
proof -
  have e: "TeamDetail_post env req iform form s =
           (Inr (Redirect (path req)),
            s\<lparr>messages := messages s @
                 map (\<lambda>fe. (Error, join [CHR 0x0A] (snd fe))) (errors iform)\<rparr>)"
    using assms by (simp add: TeamDetail_post_def messages_errors_eq)
  have n: "errors iform \<noteq> []"
    using assms by (simp add: invite_form_is_valid_def)
  have r: "r = Redirect (path req)"
    if "fst (TeamDetail_post env req iform' form s) = Inr r" for iform' r
    using that assms(1)
    by (auto simp add: TeamDetail_post_def split: if_splits sum.splits prod.splits)
  show ?thesis
    unfolding e using n r by simp
qed

theorem C8_invalid_invite_form_witness:
  "TeamDetail_post ex_env (ex_request\<lparr>POST_form := Some ''invite''\<rparr>) ex_invalid_invite_form
     ex_shrink_form ex_state =
     (Inr (Redirect ''/orga/organiser/one/teams/10/''),
      ex_state\<lparr>messages :=
        [(Error, ''Enter a valid email address.'' @ [CHR 0x0A] @ ''This field is required.''),
         (Error, ''Too many addresses.'')]\<rparr>)"
  using C8_invalid_invite_form [of "ex_request\<lparr>POST_form := Some ''invite''\<rparr>"
      ex_invalid_invite_form ex_env ex_shrink_form ex_state]
  by (simp add: ex_defs ex_invalid_invite_form_def invite_form_is_bound_def
      invite_form_is_valid_def)


lemma distinct_addresses_keys:
  "key ` set (distinct_addresses key seen as) = key ` set as - set seen"
  by (induction as arbitrary: seen) auto

lemma distinct_addresses_length:
  "length (distinct_addresses key seen as) = card (key ` set as - set seen)"
proof (induction as arbitrary: seen)
  case Nil
  then show ?case by simp
next
  case (Cons a as)
  show ?case
  proof (cases "key a \<in> set seen")
    case True
    then have "key ` set (a # as) - set seen = key ` set as - set seen" by auto
    then show ?thesis using True Cons.IH by simp
  next
    case False
    have "key ` set (a # as) - set seen = insert (key a) (key ` set as - set (key a # seen))"
      using False by auto
    moreover have "key a \<notin> key ` set as - set (key a # seen)" by simp
    ultimately have "card (key ` set (a # as) - set seen) =
        Suc (card (key ` set as - set (key a # seen)))"
      by (simp only: card_insert_disjoint[OF _ \<open>key a \<notin> key ` set as - set (key a # seen)\<close>]
          finite_Diff finite_imageI finite_set)
    then show ?thesis using False Cons.IH by simp
  qed
qed

lemma create_invites_length: "length (create_invites t k as) = length as"
  by (induction as arbitrary: k) simp_all

lemma create_invites_team: "i \<in> set (create_invites t k as) \<Longrightarrow> invite_team i = t"
  by (induction as arbitrary: k) auto

lemma create_invites_email: "map email (create_invites t k as) = as"
  by (induction as arbitrary: k) simp_all

lemma create_invites_pks: "map invite_pk (create_invites t k as) = [k ..< k + length as]"
  by (induction as arbitrary: k) (simp_all add: upt_rec)

lemma fold_max_ge: "(a::nat) \<le> fold max xs a"
  by (induction xs arbitrary: a) (auto intro: max.coboundedI2 le_trans)

lemma fold_max_mem: "x \<in> set xs \<Longrightarrow> (x::nat) \<le> fold max xs a"
proof (induction xs arbitrary: a)
  case Nil
  then show ?case by simp
next
  case (Cons y ys)
  show ?case
  proof (cases "x = y")
    case True
    have "max y a \<le> fold max ys (max y a)" by (rule fold_max_ge)
    then show ?thesis using True by simp
  next
    case False
    then show ?thesis using Cons by simp
  qed
qed

lemma next_pk_fresh: "i \<in> set invs \<Longrightarrow> invite_pk i < next_pk invs"
  using fold_max_mem [of "invite_pk i" "map invite_pk invs" 0]
  by (simp add: next_pk_def less_Suc_eq_le)

text \<open>
  C7. For every valid submission of the invite sub-form with N semantically distinct
  addresses (N the number of distinct address keys, at least 1) and a resolved target
  team, exactly N TeamInvite records are added, each for the target team and each with a
  pk no invite had, one for each distinct address; the success message is the singular
  one when N = 1 and the plural one otherwise; the response redirects to the path.
\<close>

theorem C7_one_invite_per_distinct_address:
  assumes "invite_form_is_valid req iform"
    and "TeamMixin_get_team req (db s) = Inr (Some t)"
    and "N = card (address_key env ` set (cleaned_addresses iform))" and "1 \<le> N"
  shows "\<exists>new.
           TeamDetail_post env req iform form s =
             (Inr (Redirect (path req)),
              s\<lparr>db := (db s)\<lparr>invites := invites (db s) @ new\<rparr>,
                messages := messages s @
                  [(Success, if N = 1 then ''The invitation has been sent.''
                             else ''The invitations have been sent.'')]\<rparr>)
         \<and> length new = N
         \<and> (\<forall>i \<in> set new. invite_team i = team_pk t
               \<and> invite_pk i \<notin> invite_pk ` set (invites (db s)))
         \<and> distinct (map invite_pk new)
         \<and> address_key env ` set (map email new) =
             address_key env ` set (cleaned_addresses iform)"
proof -
  define addrs where "addrs = distinct_addresses (address_key env) [] (cleaned_addresses iform)"
  define new where "new = create_invites (team_pk t) (next_pk (invites (db s))) addrs"
  have len: "length new = N"
    using assms(3) by (simp add: new_def addrs_def create_invites_length distinct_addresses_length)
  have bound: "invite_form_is_bound req"
    using assms(1) by (simp add: invite_form_is_valid_def)
  have post: "TeamDetail_post env req iform form s =
             (Inr (Redirect (path req)),
              s\<lparr>db := (db s)\<lparr>invites := invites (db s) @ new\<rparr>,
                messages := messages s @
                  [(Success, if N = 1 then ''The invitation has been sent.''
                             else ''The invitations have been sent.'')]\<rparr>)"
    using assms(1,2) bound len
    by (simp add: TeamDetail_post_def TeamInviteForm_save_def Let_def messages_add_def
        new_def [symmetric] addrs_def [symmetric])
  have pks: "map invite_pk new = [next_pk (invites (db s)) ..< next_pk (invites (db s)) + length addrs]"
    by (simp add: new_def create_invites_pks)
  have fresh: "invite_pk i \<notin> invite_pk ` set (invites (db s))" if "i \<in> set new" for i
  proof
    assume "invite_pk i \<in> invite_pk ` set (invites (db s))"
    then obtain j where j: "j \<in> set (invites (db s))" "invite_pk j = invite_pk i" by auto
    have "invite_pk i \<in> set (map invite_pk new)" using that by simp
    then have "next_pk (invites (db s)) \<le> invite_pk i" unfolding pks by simp
    moreover have "invite_pk j < next_pk (invites (db s))" using j(1) by (rule next_pk_fresh)
    ultimately show False using j(2) by simp
  qed
  have team: "invite_team i = team_pk t" if "i \<in> set new" for i
    using that unfolding new_def by (rule create_invites_team)
  have dist: "distinct (map invite_pk new)" unfolding pks by simp
  have keys: "address_key env ` set (map email new) =
             address_key env ` set (cleaned_addresses iform)"
    by (simp add: new_def create_invites_email addrs_def distinct_addresses_keys)
  show ?thesis
    using post len fresh team dist keys by blast
qed

theorem C7_one_invite_per_distinct_address_witness:
  "TeamDetail_post ex_env (ex_request\<lparr>POST_form := Some ''invite''\<rparr>) ex_invite_form
     ex_shrink_form ex_state =
     (Inr (Redirect ''/orga/organiser/one/teams/10/''),
      \<lparr>db = ex_db\<lparr>invites := [ex_other_invite,
               \<lparr>invite_pk = 8, invite_team = 10, email = ''a@example.org''\<rparr>,
               \<lparr>invite_pk = 9, invite_team = 10, email = ''b@example.org''\<rparr>]\<rparr>,
       messages = [(Success, ''The invitations have been sent.'')], calls = []\<rparr>)
   \<and> card (address_key ex_env ` set (cleaned_addresses ex_invite_form)) = 2"
proof -
  have n: "card (address_key ex_env ` set (cleaned_addresses ex_invite_form)) = 2"
    by (simp add: ex_env_def ex_invite_form_def card_insert_if)
  have v: "invite_form_is_valid (ex_request\<lparr>POST_form := Some ''invite''\<rparr>) ex_invite_form"
    by (simp add: invite_form_is_valid_def invite_form_is_bound_def ex_request_def
        ex_invite_form_def)
  have t: "TeamMixin_get_team (ex_request\<lparr>POST_form := Some ''invite''\<rparr>) (db ex_state) =
      Inr (Some ex_team)"
    by (simp add: ex_defs TeamMixin_get_team_def get_object_or_404_def organiser_teams_def)
  have e: "TeamDetail_post ex_env (ex_request\<lparr>POST_form := Some ''invite''\<rparr>) ex_invite_form
     ex_shrink_form ex_state =
     (Inr (Redirect ''/orga/organiser/one/teams/10/''),
      \<lparr>db = ex_db\<lparr>invites := [ex_other_invite,
               \<lparr>invite_pk = 8, invite_team = 10, email = ''a@example.org''\<rparr>,
               \<lparr>invite_pk = 9, invite_team = 10, email = ''b@example.org''\<rparr>]\<rparr>,
       messages = [(Success, ''The invitations have been sent.'')], calls = []\<rparr>)"
    by (simp add: ex_defs ex_invite_form_def TeamDetail_post_def invite_form_is_valid_def
        invite_form_is_bound_def TeamMixin_get_team_def get_object_or_404_def
        organiser_teams_def TeamInviteForm_save_def next_pk_def messages_add_def Let_def)
  show ?thesis
    using C7_one_invite_per_distinct_address [OF v t n [symmetric], of ex_shrink_form] e n
    by simp
qed

end
